theory Spec2Isabelle
  imports
    Complex_Main
    "HOL-Library.Product_Lexorder"
    "HOL-Library.List_Lexorder"
    "HOL-Library.Char_ord"
begin

section \<open>The distribution table of \<^verbatim>\<open>interactive_webapp/backend.py\<close>\<close>

text \<open>
  The backend keeps one pandas frame, \<^verbatim>\<open>kalshi_data\<close>, and answers five queries from it.
  A frame is modelled as the list of its rows, in frame order. Timestamps are calendar
  days \<open>(year, month, day)\<close> under the lexicographic order, which is the order of the
  calendar. Strikes and probabilities are floats in the source; here they are reals, so
  every sum is exact. Every column of a row holds a value: a frame with missing cells
  (NaN, NaT) is outside the model, and on the frames inside it every \<^verbatim>\<open>dropna()\<close> of the
  source keeps all rows.
\<close>

type_synonym date = "nat \<times> nat \<times> nat"

record DistributionRow =
  contract_preamble :: string
  prediction_date :: date
  horizon_date :: date
  strike :: real
  probability :: real
  type :: string

text \<open>
  \<^verbatim>\<open>load_and_process_csv\<close>: the parsed file is a parameter (its rows, with the columns
  \<^verbatim>\<open>date\<close> and \<^verbatim>\<open>expiry_date\<close> already under their new names); the function stamps the
  \<^verbatim>\<open>type\<close> column.
\<close>

definition load_and_process_csv :: "DistributionRow list \<Rightarrow> string \<Rightarrow> DistributionRow list" where
  "load_and_process_csv file_rows data_type = map (\<lambda>row. row\<lparr>type := data_type\<rparr>) file_rows"

text \<open>\<^verbatim>\<open>HORIZON_MAP\<close>, each value already the timestamp \<^verbatim>\<open>pd.to_datetime\<close> reads from it.\<close>

definition HORIZON_MAP :: "string \<rightharpoonup> date" where
  "HORIZON_MAP = map_of
     [(''FED-25JUL'', (2025, 7, 30)),
      (''FED-25SEP'', (2025, 9, 17)),
      (''FED-25OCT'', (2025, 10, 29)),
      (''FED-25DEC'', (2025, 12, 10))]"

text \<open>
  \<^verbatim>\<open>apply_horizon_override\<close>: the row-wise \<^verbatim>\<open>df.apply(..., axis=1)\<close> that rewrites the
  \<^verbatim>\<open>horizon_date\<close> column. The source updates the frame in place and returns it; the
  model returns the updated frame.
\<close>

definition apply_horizon_override :: "DistributionRow list \<Rightarrow> DistributionRow list" where
  "apply_horizon_override df =
     map (\<lambda>row. row\<lparr>horizon_date :=
            (if contract_preamble row \<in> dom HORIZON_MAP
             then the (HORIZON_MAP (contract_preamble row))
             else horizon_date row)\<rparr>) df"

text \<open>The module-level \<^verbatim>\<open>pd.concat\<close> that builds the table from the two files.\<close>

definition load_kalshi_data :: "DistributionRow list \<Rightarrow> DistributionRow list \<Rightarrow> DistributionRow list" where
  "load_kalshi_data fed_levels_file headline_cpi_file =
     apply_horizon_override (load_and_process_csv fed_levels_file ''fed_levels'')
     @ load_and_process_csv headline_cpi_file ''headline_cpi_releases''"

text \<open>
  What a request can read: the table, and the wall clock. A reading of the clock is a day
  and the time elapsed since the midnight of that day, in ticks of the clock. A request
  is served at one reading.
\<close>

type_synonym timestamp = "date \<times> nat"

record world =
  kalshi_data :: "DistributionRow list"
  now :: timestamp

text \<open>\<^verbatim>\<open>pd.to_datetime("today").normalize()\<close>: the midnight of the current day.\<close>

definition today :: "world \<Rightarrow> date" where
  "today w = fst (now w)"

section \<open>Rebinning: the loop body of \<^verbatim>\<open>get_distribution\<close>\<close>

text \<open>A two-column frame \<^verbatim>\<open>[['strike', 'probability']]\<close> is a list of pairs.\<close>

type_synonym bin = "real \<times> real"

text \<open>Lines 92 to 105, \<^verbatim>\<open># Handle lower bound\<close>, for a supplied \<^verbatim>\<open>smallest_bin\<close>.\<close>

definition lower_bound_step :: "real \<Rightarrow> bin list \<Rightarrow> bin list" where
  "lower_bound_step smallest_bin rows =
     (let lower = filter (\<lambda>row. fst row < smallest_bin) rows;
          lump = sum_list (map snd lower);
          kept = filter (\<lambda>row. fst row \<ge> smallest_bin) rows
      in if lump > 0
         then (if smallest_bin \<notin> set (map fst kept)
               then (smallest_bin, lump) # kept
               else map (\<lambda>row. if fst row = smallest_bin
                                then (fst row, snd row + lump) else row) kept)
         else kept)"

text \<open>Lines 108 to 121, \<^verbatim>\<open># Handle upper bound\<close>, for a supplied \<^verbatim>\<open>largest_bin\<close>.\<close>

definition upper_bound_step :: "real \<Rightarrow> bin list \<Rightarrow> bin list" where
  "upper_bound_step largest_bin rows =
     (let upper = filter (\<lambda>row. fst row > largest_bin) rows;
          lump = sum_list (map snd upper);
          kept = filter (\<lambda>row. fst row \<le> largest_bin) rows
      in if lump > 0
         then (if largest_bin \<notin> set (map fst kept)
               then kept @ [(largest_bin, lump)]
               else map (\<lambda>row. if fst row = largest_bin
                                then (fst row, snd row + lump) else row) kept)
         else kept)"

text \<open>
  Lines 87 to 123: the value stored under one date. \<^verbatim>\<open>sort_values('strike')\<close> is
  modelled by the stable sort; the order pandas gives to rows of equal strike is not
  fixed by the source, and such rows do not occur under the unique-strike invariant.
\<close>

definition rebin :: "real option \<Rightarrow> real option \<Rightarrow> bin list \<Rightarrow> bin list" where
  "rebin smallest_bin largest_bin rows =
     (if rows = [] then []
      else
        let s1 = (case smallest_bin of None \<Rightarrow> rows | Some lo \<Rightarrow> lower_bound_step lo rows);
            s2 = (case largest_bin of None \<Rightarrow> s1 | Some hi \<Rightarrow> upper_bound_step hi s1)
        in sort_key fst s2)"

section \<open>The query endpoints\<close>

text \<open>
  \<^verbatim>\<open>drop_duplicates()\<close> and \<^verbatim>\<open>unique()\<close>: the first occurrence of each value stays, in
  the order of the frame.
\<close>

fun drop_duplicates :: "'a list \<Rightarrow> 'a list" where
  "drop_duplicates [] = []"
| "drop_duplicates (x # xs) = x # drop_duplicates (filter (\<lambda>y. y \<noteq> x) xs)"

text \<open>
  \<^verbatim>\<open>get_contracts\<close>. The test \<^verbatim>\<open>if type:\<close> is false for a missing and for an empty
  string. The result shows the order that \<^verbatim>\<open>sort_values("horizon_date", ascending=False)\<close>
  gives to contracts of equal horizon date; that order is pandas' own (its default sort
  is not stable), so the call on the two-column frame is a parameter of the endpoint.
\<close>

type_synonym sort_values = "(string \<times> date) list \<Rightarrow> (string \<times> date) list"

definition get_contracts :: "sort_values \<Rightarrow> world \<Rightarrow> string option \<Rightarrow> string list" where
  "get_contracts sort_values_desc w type_arg =
     (let df = (if type_arg \<noteq> None \<and> type_arg \<noteq> Some []
                then filter (\<lambda>row. type row = the type_arg) (kalshi_data w)
                else kalshi_data w);
          pairs = drop_duplicates (map (\<lambda>row. (contract_preamble row, horizon_date row)) df)
      in map fst (sort_values_desc pairs))"

text \<open>\<^verbatim>\<open>get_types\<close>.\<close>

definition get_types :: "world \<Rightarrow> string list" where
  "get_types w = drop_duplicates (map type (kalshi_data w))"

text \<open>\<^verbatim>\<open>strftime('%Y-%m-%d')\<close>: a year of four digits, month and day of two.\<close>

fun digits :: "nat \<Rightarrow> nat \<Rightarrow> string" where
  "digits 0 n = []"
| "digits (Suc k) n = digits k (n div 10) @ [char_of (48 + n mod 10)]"

definition strftime :: "date \<Rightarrow> string" where
  "strftime d = (case d of (y, m, dd) \<Rightarrow> digits 4 y @ ''-'' @ digits 2 m @ ''-'' @ digits 2 dd)"

text \<open>\<^verbatim>\<open>get_prediction_dates\<close>; Python's \<^verbatim>\<open>sorted\<close> orders strings by code point.\<close>

definition get_prediction_dates :: "world \<Rightarrow> string \<Rightarrow> string \<Rightarrow> string list" where
  "get_prediction_dates w contract type_arg =
     (let filtered = filter (\<lambda>row. contract_preamble row = contract \<and> type row = type_arg)
                       (kalshi_data w)
      in if filtered = [] then []
         else sort (drop_duplicates (map (\<lambda>row. strftime (prediction_date row)) filtered)))"

text \<open>
  \<^verbatim>\<open>pd.to_datetime(date_str)\<close> belongs to pandas, not to this repository: it is a
  parameter of \<^verbatim>\<open>get_distribution\<close>. On some strings (\<^verbatim>\<open>today\<close>, \<^verbatim>\<open>now\<close>, a time of day
  with no date) it reads the wall clock: the reading is its first argument. It raises
  on a string it cannot read (\<open>Inl\<close>). A timestamp it returns is either the midnight of
  a day (\<open>Inr (Some d)\<close>), or it equals no row of the table, whose dates are days: the
  missing timestamp NaT and any time past midnight (\<open>Inr None\<close>).
\<close>

datatype error = DateParseError

type_synonym to_datetime = "timestamp \<Rightarrow> string \<Rightarrow> error + date option"

record distribution =
  strike_labels :: "real list"
  data :: "string \<rightharpoonup> bin list"

text \<open>
  Line 85: the rows of the contract's frame \<^verbatim>\<open>df\<close> taken on the day \<^verbatim>\<open>d\<close>, cut to the
  two columns. No row of the table equals NaT.
\<close>

definition date_subset :: "DistributionRow list \<Rightarrow> date option \<Rightarrow> bin list" where
  "date_subset df d =
     map (\<lambda>row. (strike row, probability row))
       (filter (\<lambda>row. Some (prediction_date row) = d) df)"

text \<open>
  The \<^verbatim>\<open>for date_str in prediction_dates\<close> loop, with the dictionary \<^verbatim>\<open>output\<close> as its
  state; \<open>parse\<close> is \<^verbatim>\<open>pd.to_datetime\<close> at the clock reading of the request. An exception
  of \<^verbatim>\<open>pd.to_datetime\<close> leaves the loop and the endpoint.
\<close>

fun distribution_loop ::
  "(string \<Rightarrow> error + date option) \<Rightarrow> DistributionRow list \<Rightarrow> real option \<Rightarrow> real option \<Rightarrow> string list
     \<Rightarrow> (string \<rightharpoonup> bin list) \<Rightarrow> error + (string \<rightharpoonup> bin list)" where
  "distribution_loop parse df smallest_bin largest_bin [] output = Inr output"
| "distribution_loop parse df smallest_bin largest_bin (date_str # rest) output =
     (case parse date_str of
        Inl e \<Rightarrow> Inl e
      | Inr d \<Rightarrow>
          distribution_loop parse df smallest_bin largest_bin rest
            (output(date_str \<mapsto> rebin smallest_bin largest_bin (date_subset df d))))"

definition get_distribution ::
  "to_datetime \<Rightarrow> world \<Rightarrow> string \<Rightarrow> string list \<Rightarrow> real option \<Rightarrow> real option
     \<Rightarrow> error + distribution" where
  "get_distribution to_datetime w contract prediction_dates smallest_bin largest_bin =
     (let df = filter (\<lambda>row. contract_preamble row = contract) (kalshi_data w)
      in case distribution_loop (to_datetime (now w)) df smallest_bin largest_bin
                prediction_dates Map.empty of
           Inl e \<Rightarrow> Inl e
         | Inr output \<Rightarrow>
             Inr \<lparr>strike_labels = sort (drop_duplicates (map strike df)), data = output\<rparr>)"

text \<open>
  \<^verbatim>\<open>get_contract_info\<close>; the empty dictionary \<^verbatim>\<open>{}\<close> of an unknown contract is \<open>None\<close>.
  \<^verbatim>\<open>iloc[0]\<close> reads the first row of a frame that the test before it found non-empty.
\<close>

record contract_info =
  info_horizon_date :: date
  info_previous_horizon_date :: "date option"
  info_latest_prediction_date :: date

definition get_contract_info :: "world \<Rightarrow> string \<Rightarrow> contract_info option" where
  "get_contract_info w contract =
     (case filter (\<lambda>row. contract_preamble row = contract) (kalshi_data w) of
        [] \<Rightarrow> None
      | first # others \<Rightarrow>
          let df = first # others;
              this_type = type first;
              this_horizon = horizon_date first;
              latest_pred = Max (set (map prediction_date df));
              type_horizons =
                sort_key snd (drop_duplicates
                  (map (\<lambda>row. (contract_preamble row, horizon_date row))
                     (filter (\<lambda>row. type row = this_type) (kalshi_data w))));
              previous_horizons = filter (\<lambda>p. snd p < this_horizon) type_horizons;
              past_horizons = filter (\<lambda>p. snd p < today w) previous_horizons;
              previous_valid =
                (if past_horizons \<noteq> [] then Some (Max (set (map snd past_horizons))) else None)
          in Some \<lparr>info_horizon_date = this_horizon,
                   info_previous_horizon_date = previous_valid,
                   info_latest_prediction_date = latest_pred\<rparr>)"

section \<open>Notions of the specification\<close>

text \<open>The mass that the lower-bound step folds: the probabilities at strikes below the bound.\<close>

definition mass_below :: "real \<Rightarrow> bin list \<Rightarrow> real" where
  "mass_below bound rows = sum_list (map snd (filter (\<lambda>row. fst row < bound) rows))"

text \<open>
  The horizons of a category that lie strictly before a given horizon and strictly before
  the current day: the candidates for the previous horizon of a contract.
\<close>

definition resolved_horizons :: "world \<Rightarrow> string \<Rightarrow> date \<Rightarrow> date set" where
  "resolved_horizons w category this_horizon =
     set (map horizon_date
       (filter (\<lambda>row. type row = category \<and> horizon_date row < this_horizon
                        \<and> horizon_date row < today w)
          (kalshi_data w)))"

text \<open>
  Concrete data for the runs below: the three-strike series of the specification, a
  series with a negative entry (a float column can hold one), a table
  of three rate-level contracts read on 2025-07-01 at 09:30 (in seconds past midnight),
  a file of two rows with their nominal expiry dates, and a stand-in for
  \<^verbatim>\<open>pd.to_datetime\<close> that does what pandas does on the strings of the runs: it reads the
  two ISO dates as their days, the time \<^verbatim>\<open>00:00\<close> as the midnight of the current day and
  \<^verbatim>\<open>today\<close> as the current reading of the clock, and raises on \<^verbatim>\<open>garbage\<close>, which holds
  no date.
\<close>

definition sample_series :: "bin list" where
  "sample_series = [(10, 1 / 10), (20, 3 / 10), (30, 6 / 10)]"

definition signed_series :: "bin list" where
  "signed_series = [(1, - 1 / 2), (10, 1)]"

definition sample_row :: "string \<Rightarrow> date \<Rightarrow> date \<Rightarrow> real \<Rightarrow> real \<Rightarrow> DistributionRow" where
  "sample_row c p h s q =
     \<lparr>contract_preamble = c, prediction_date = p, horizon_date = h,
      strike = s, probability = q, type = ''fed_levels''\<rparr>"

definition sample_table :: "DistributionRow list" where
  "sample_table =
     [sample_row ''FED-25JUL'' (2025, 6, 20) (2025, 7, 30) (4 + 1 / 4) (7 / 10),
      sample_row ''FED-25JUL'' (2025, 6, 20) (2025, 7, 30) (4 + 1 / 2) (3 / 10),
      sample_row ''FED-25JUN'' (2025, 6, 2) (2025, 6, 18) (4 + 1 / 2) 1,
      sample_row ''FED-25MAR'' (2025, 3, 3) (2025, 3, 19) (4 + 1 / 2) 1]"

definition sample_world :: world where
  "sample_world = \<lparr>kalshi_data = sample_table, now = ((2025, 7, 1), 34200)\<rparr>"

definition sample_file :: "DistributionRow list" where
  "sample_file =
     [sample_row ''FED-25JUL'' (2025, 6, 20) (2025, 7, 31) (4 + 1 / 4) 1,
      sample_row ''FED-25JUN'' (2025, 6, 2) (2025, 6, 19) (4 + 1 / 2) 1]"

definition sample_to_datetime :: to_datetime where
  "sample_to_datetime clock s =
     (if s = ''2025-06-20'' then Inr (Some (2025, 6, 20))
      else if s = ''2025-06-21'' then Inr (Some (2025, 6, 21))
      else if s = ''00:00'' then Inr (Some (fst clock))
      else if s = ''today'' then (if snd clock = 0 then Inr (Some (fst clock)) else Inr None)
      else Inl DateParseError)"

section \<open>Sums, filters and the stable sort\<close>

lemma sum_list_filter_split:
  fixes f :: "'a \<Rightarrow> real"
  shows "sum_list (map f (filter P xs)) + sum_list (map f (filter (\<lambda>x. \<not> P x) xs)) = sum_list (map f xs)"
  by (induction xs) auto

lemma bump_absent:
  "b \<notin> set (map fst xs) \<Longrightarrow> map (\<lambda>row. if fst row = b then (fst row, snd row + l) else row) xs = xs"
  by (induction xs) auto

lemma bump_sum:
  fixes l :: real
  shows "distinct (map fst xs) \<Longrightarrow> b \<in> set (map fst xs) \<Longrightarrow>
    sum_list (map snd (map (\<lambda>row. if fst row = b then (fst row, snd row + l) else row) xs))
      = sum_list (map snd xs) + l"
proof (induction xs)
  case Nil then show ?case by simp
next
  case (Cons x xs)
  show ?case
  proof (cases "fst x = b")
    case True
    with Cons.prems have "b \<notin> set (map fst xs)" by auto
    then show ?thesis using True by (simp add: bump_absent)
  next
    case False
    with Cons show ?thesis by auto
  qed
qed

lemma bump_fst:
  "map fst (map (\<lambda>row. if fst row = b then (fst row, snd row + l) else row) xs) = map fst xs"
  by (induction xs) auto

lemma nonneg_sum_zero:
  fixes xs :: "bin list"
  assumes "\<forall>r\<in>set xs. 0 \<le> snd r" "\<not> 0 < sum_list (map snd (filter P xs))"
  shows "sum_list (map snd (filter P xs)) = 0"
proof -
  have "0 \<le> sum_list (map snd (filter P xs))"
    using assms(1) by (intro sum_list_nonneg) auto
  with assms(2) show ?thesis by simp
qed

lemma nonneg_zero_filter:
  fixes xs :: "bin list"
  assumes "\<forall>r\<in>set xs. 0 \<le> snd r" "\<not> 0 < sum_list (map snd (filter P xs))"
  shows "sum_list (map snd (filter (\<lambda>x. \<not> P x) xs)) = sum_list (map snd xs)"
  using sum_list_filter_split[of snd P xs] nonneg_sum_zero[OF assms] by simp

lemma lower_mass:
  assumes "distinct (map fst xs)" "\<forall>r\<in>set xs. 0 \<le> snd r"
  shows "sum_list (map snd (lower_bound_step lo xs)) = sum_list (map snd xs)"
proof -
  let ?P = "\<lambda>row::bin. fst row < lo"
  have k: "filter (\<lambda>row. lo \<le> fst row) xs = filter (\<lambda>x. \<not> ?P x) xs"
    by (simp add: not_less)
  have d: "distinct (map fst (filter (\<lambda>x. \<not> ?P x) xs))"
    using assms(1) by (simp add: distinct_map_filter)
  show ?thesis
    unfolding lower_bound_step_def Let_def k
    using sum_list_filter_split[of snd ?P xs] nonneg_zero_filter[OF assms(2), of ?P]
      bump_sum[OF d, of lo]
    by (auto simp del: set_map)
qed

lemma upper_mass:
  assumes "distinct (map fst xs)" "\<forall>r\<in>set xs. 0 \<le> snd r"
  shows "sum_list (map snd (upper_bound_step hi xs)) = sum_list (map snd xs)"
proof -
  let ?P = "\<lambda>row::bin. hi < fst row"
  have k: "filter (\<lambda>row. fst row \<le> hi) xs = filter (\<lambda>x. \<not> ?P x) xs"
    by (simp add: not_less)
  have d: "distinct (map fst (filter (\<lambda>x. \<not> ?P x) xs))"
    using assms(1) by (simp add: distinct_map_filter)
  show ?thesis
    unfolding upper_bound_step_def Let_def k
    using sum_list_filter_split[of snd ?P xs] nonneg_zero_filter[OF assms(2), of ?P]
      bump_sum[OF d, of hi]
    by (auto simp del: set_map)
qed

lemma lower_distinct:
  "distinct (map fst xs) \<Longrightarrow> distinct (map fst (lower_bound_step lo xs))"
  unfolding lower_bound_step_def Let_def
  by (auto simp: distinct_map_filter bump_fst simp del: map_map)

lemma upper_distinct:
  "distinct (map fst xs) \<Longrightarrow> distinct (map fst (upper_bound_step hi xs))"
  unfolding upper_bound_step_def Let_def
  by (auto simp: distinct_map_filter bump_fst simp del: map_map)

lemma lower_nonneg:
  "\<forall>r\<in>set xs. 0 \<le> snd r \<Longrightarrow> \<forall>r\<in>set (lower_bound_step lo xs). 0 \<le> snd r"
  unfolding lower_bound_step_def Let_def
  by (auto split: if_splits)

lemma upper_nonneg:
  "\<forall>r\<in>set xs. 0 \<le> snd r \<Longrightarrow> \<forall>r\<in>set (upper_bound_step lo xs). 0 \<le> snd r"
  unfolding upper_bound_step_def Let_def
  by (auto split: if_splits)

lemma sum_insort_key:
  fixes xs :: "bin list"
  shows "sum_list (map snd (insort_key fst x xs)) = snd x + sum_list (map snd xs)"
  by (induction xs) auto

lemma sum_sort_key:
  fixes xs :: "bin list"
  shows "sum_list (map snd (sort_key fst xs)) = sum_list (map snd xs)"
  by (induction xs) (simp_all add: sum_insort_key)


lemma sort_key_strict:
  fixes xs :: "bin list"
  assumes "distinct (map fst xs)"
  shows "sorted_wrt (<) (map fst (sort_key fst xs))"
proof -
  have "distinct (map fst (sort_key fst xs))"
    using assms by (simp add: distinct_map)
  moreover have "sorted (map fst (sort_key fst xs))" by (rule sorted_sort_key)
  ultimately show ?thesis by (simp add: strict_sorted_iff)
qed

lemma rebin_strictly_sorted:
  assumes "distinct (map fst rows)"
  shows "sorted_wrt (<) (map fst (rebin smallest_bin largest_bin rows))"
proof (cases "rows = []")
  case True then show ?thesis by (simp add: rebin_def)
next
  case False
  define s1 where "s1 = (case smallest_bin of None \<Rightarrow> rows | Some lo \<Rightarrow> lower_bound_step lo rows)"
  define s2 where "s2 = (case largest_bin of None \<Rightarrow> s1 | Some hi \<Rightarrow> upper_bound_step hi s1)"
  have "distinct (map fst s1)"
    using assms lower_distinct[OF assms] by (auto simp: s1_def split: option.splits)
  then have "distinct (map fst s2)"
    using upper_distinct by (auto simp: s2_def split: option.splits)
  then have "sorted_wrt (<) (map fst (sort_key fst s2))" by (rule sort_key_strict)
  then show ?thesis using False unfolding s2_def s1_def by (simp add: rebin_def Let_def)
qed


lemma lower_vacuous:
  assumes "\<forall>r\<in>set xs. lo < fst r"
  shows "lower_bound_step lo xs = xs"
proof -
  have "filter (\<lambda>row. fst row < lo) xs = []" using assms by (auto simp: filter_empty_conv)
  moreover have "filter (\<lambda>row. lo \<le> fst row) xs = xs" using assms by (auto simp: filter_id_conv)
  ultimately show ?thesis by (simp add: lower_bound_step_def)
qed

lemma upper_vacuous:
  assumes "\<forall>r\<in>set xs. fst r < hi"
  shows "upper_bound_step hi xs = xs"
proof -
  have "filter (\<lambda>row. hi < fst row) xs = []" using assms by (auto simp: filter_empty_conv)
  moreover have "filter (\<lambda>row. fst row \<le> hi) xs = xs" using assms by (auto simp: filter_id_conv)
  ultimately show ?thesis by (simp add: upper_bound_step_def)
qed


lemma lower_ge: "\<forall>r\<in>set (lower_bound_step lo xs). lo \<le> fst r"
  unfolding lower_bound_step_def Let_def by (auto split: if_splits)


lemma lower_above:
  "lo < fst r \<Longrightarrow> r \<in> set (lower_bound_step lo rows) \<longleftrightarrow> r \<in> set rows"
  unfolding lower_bound_step_def Let_def by (auto split: if_splits)

lemma bump_filter_at:
  "distinct (map fst xs) \<Longrightarrow> (b, p) \<in> set xs \<Longrightarrow>
   filter (\<lambda>r. fst r = b) (map (\<lambda>row. if fst row = b then (fst row, snd row + l) else row) xs)
     = [(b, p + l)]"
proof (induction xs)
  case Nil then show ?case by simp
next
  case (Cons x xs)
  show ?case
  proof (cases "fst x = b")
    case True
    with Cons.prems have nb: "b \<notin> set (map fst xs)" by auto
    then have "x = (b, p)" using Cons.prems(2) True by (cases x) force
    moreover have "filter (\<lambda>r. fst r = b) xs = []" using nb by (auto simp: filter_empty_conv)
    ultimately show ?thesis using nb by (simp add: bump_absent)
  next
    case False
    with Cons show ?thesis by auto
  qed
qed

lemma lower_merge:
  assumes "distinct (map fst rows)" "0 < mass_below lo rows" "(lo, p) \<in> set rows"
  shows "filter (\<lambda>r. fst r = lo) (lower_bound_step lo rows) = [(lo, p + mass_below lo rows)]"
proof -
  let ?kept = "filter (\<lambda>row. lo \<le> fst row) rows"
  have d: "distinct (map fst ?kept)" using assms(1) by (simp add: distinct_map_filter)
  have m: "(lo, p) \<in> set ?kept" using assms(3) by simp
  then have "lo \<in> set (map fst ?kept)" by force
  then have "lower_bound_step lo rows =
      map (\<lambda>row. if fst row = lo then (fst row, snd row + mass_below lo rows) else row) ?kept"
    using assms(2) by (simp add: lower_bound_step_def mass_below_def Let_def del: set_map)
  then show ?thesis using bump_filter_at[OF d m] by simp
qed

lemma lower_insert:
  assumes "0 < mass_below lo rows" "lo \<notin> fst ` set rows"
  shows "lower_bound_step lo rows = (lo, mass_below lo rows) # filter (\<lambda>row. lo \<le> fst row) rows"
  using assms by (auto simp: lower_bound_step_def mass_below_def Let_def)

lemma lower_zero:
  assumes "mass_below lo rows = 0"
  shows "lower_bound_step lo rows = filter (\<lambda>row. lo \<le> fst row) rows"
  using assms by (simp add: lower_bound_step_def mass_below_def Let_def)


section \<open>Rebinning\<close>

text \<open>
  Claim C1 (mass conservation). For a series with unique strikes and non-negative
  probabilities, and for every choice of the two optional bounds, the probabilities of
  the rebinned series sum to what the probabilities of the input sum to.
\<close>

theorem rebin_mass_conservation:
  assumes "distinct (map fst rows)" "\<forall>r\<in>set rows. 0 \<le> snd r"
  shows "sum_list (map snd (rebin smallest_bin largest_bin rows)) = sum_list (map snd rows)"
proof (cases "rows = []")
  case True then show ?thesis by (simp add: rebin_def)
next
  case False
  define s1 where "s1 = (case smallest_bin of None \<Rightarrow> rows | Some lo \<Rightarrow> lower_bound_step lo rows)"
  have s1: "distinct (map fst s1)" "\<forall>r\<in>set s1. 0 \<le> snd r" "sum_list (map snd s1) = sum_list (map snd rows)"
    using assms lower_distinct[OF assms(1)] lower_nonneg[OF assms(2)] lower_mass[OF assms]
    by (auto simp: s1_def split: option.splits)
  have "sum_list (map snd (case largest_bin of None \<Rightarrow> s1 | Some hi \<Rightarrow> upper_bound_step hi s1)) = sum_list (map snd rows)"
    using s1 upper_mass[OF s1(1,2)] by (auto split: option.splits)
  then show ?thesis using False unfolding s1_def by (simp add: rebin_def Let_def sum_sort_key)
qed

theorem rebin_mass_conservation_witness:
  "distinct (map fst sample_series) \<and> list_all (\<lambda>r. 0 \<le> snd r) sample_series
   \<and> sum_list (map snd (rebin (Some 15) (Some 25) sample_series)) = 1"
proof -
  have d: "distinct (map fst sample_series)" by (simp add: sample_series_def)
  have n: "\<forall>r\<in>set sample_series. 0 \<le> snd r" by (simp add: sample_series_def)
  have "sum_list (map snd sample_series) = 1" by (simp add: sample_series_def)
  with d n rebin_mass_conservation [OF d n, of "Some 15" "Some 25"] show ?thesis
    by (simp add: list_all_iff)
qed

text \<open>
  Claim C2 (lower-bound truncation). For a series with unique strikes and a supplied
  lower bound, with lump the mass at the strikes strictly below the bound: no row of the
  result lies below the bound, and the rows strictly above it are those of the input; if
  lump is positive and the input has a row at the bound, the result has exactly one row
  at the bound, with lump added to its probability; if lump is positive and the input
  has no row at the bound, the row (bound, lump) is put in front of the kept rows; if
  lump is zero the result is the kept rows, with no boundary row made or changed. The
  series 10: 0.1, 20: 0.3, 30: 0.6 gives (20, 0.4), (30, 0.6) under the bound 20 and
  (15, 0.1), (20, 0.3), (30, 0.6) under the bound 15.
\<close>

theorem lower_bound_truncation:
  assumes "distinct (map fst rows)"
  shows "(\<forall>r\<in>set (lower_bound_step lo rows). lo \<le> fst r)
       \<and> (\<forall>r. lo < fst r \<longrightarrow> (r \<in> set (lower_bound_step lo rows) \<longleftrightarrow> r \<in> set rows))
       \<and> (0 < mass_below lo rows \<longrightarrow>
            (\<forall>p. (lo, p) \<in> set rows \<longrightarrow>
               filter (\<lambda>r. fst r = lo) (lower_bound_step lo rows) = [(lo, p + mass_below lo rows)]))
       \<and> (0 < mass_below lo rows \<and> lo \<notin> fst ` set rows \<longrightarrow>
            lower_bound_step lo rows = (lo, mass_below lo rows) # filter (\<lambda>r. lo \<le> fst r) rows)
       \<and> (mass_below lo rows = 0 \<longrightarrow>
            lower_bound_step lo rows = filter (\<lambda>r. lo \<le> fst r) rows)
       \<and> rebin (Some 20) None sample_series = [(20, 4 / 10), (30, 6 / 10)]
       \<and> rebin (Some 15) None sample_series = [(15, 1 / 10), (20, 3 / 10), (30, 6 / 10)]"
proof (intro conjI)
  show "\<forall>r\<in>set (lower_bound_step lo rows). lo \<le> fst r" by (rule lower_ge)
  show "\<forall>r. lo < fst r \<longrightarrow> (r \<in> set (lower_bound_step lo rows) \<longleftrightarrow> r \<in> set rows)"
    using lower_above by blast
  show "0 < mass_below lo rows \<longrightarrow>
            (\<forall>p. (lo, p) \<in> set rows \<longrightarrow>
               filter (\<lambda>r. fst r = lo) (lower_bound_step lo rows) = [(lo, p + mass_below lo rows)])"
    using lower_merge[OF assms] by blast
  show "0 < mass_below lo rows \<and> lo \<notin> fst ` set rows \<longrightarrow>
            lower_bound_step lo rows = (lo, mass_below lo rows) # filter (\<lambda>r. lo \<le> fst r) rows"
    using lower_insert by blast
  show "mass_below lo rows = 0 \<longrightarrow>
            lower_bound_step lo rows = filter (\<lambda>r. lo \<le> fst r) rows"
    using lower_zero by blast
  show "rebin (Some 20) None sample_series = [(20, 4 / 10), (30, 6 / 10)]"
    by (simp add: rebin_def lower_bound_step_def sample_series_def)
  show "rebin (Some 15) None sample_series = [(15, 1 / 10), (20, 3 / 10), (30, 6 / 10)]"
    by (simp add: rebin_def lower_bound_step_def sample_series_def)
qed

theorem lower_bound_truncation_witness:
  "distinct (map fst sample_series)
   \<and> mass_below 20 sample_series = 1 / 10
   \<and> filter (\<lambda>r. fst r = 20) (lower_bound_step 20 sample_series) = [(20, 4 / 10)]
   \<and> lower_bound_step 15 sample_series = [(15, 1 / 10), (20, 3 / 10), (30, 6 / 10)]
   \<and> lower_bound_step 5 sample_series = sample_series"
proof -
  have d: "distinct (map fst sample_series)" by (simp add: sample_series_def)
  have m: "mass_below 20 sample_series = 1 / 10" "mass_below 15 sample_series = 1 / 10"
    "mass_below 5 sample_series = 0"
    by (simp_all add: mass_below_def sample_series_def)
  have pos: "0 < mass_below 20 sample_series" "0 < mass_below 15 sample_series"
    by (simp_all add: m)
  have i: "(20, 3 / 10) \<in> set sample_series" "15 \<notin> fst ` set sample_series"
    by (simp_all add: sample_series_def)
  have "filter (\<lambda>r. fst r = 20) (lower_bound_step 20 sample_series)
          = [(20, 3 / 10 + mass_below 20 sample_series)]"
    using lower_bound_truncation[OF d, of 20] pos(1) i(1) by blast
  then have a: "filter (\<lambda>r. fst r = 20) (lower_bound_step 20 sample_series) = [(20, 4 / 10)]"
    by (simp add: m)
  have "lower_bound_step 15 sample_series
          = (15, mass_below 15 sample_series) # filter (\<lambda>r. 15 \<le> fst r) sample_series"
    using lower_bound_truncation[OF d, of 15] pos(2) i(2) by blast
  then have b: "lower_bound_step 15 sample_series = [(15, 1 / 10), (20, 3 / 10), (30, 6 / 10)]"
    by (simp add: m) (simp add: sample_series_def)
  have "lower_bound_step 5 sample_series = filter (\<lambda>r. 5 \<le> fst r) sample_series"
    using lower_bound_truncation[OF d, of 5] m(3) by blast
  then have c: "lower_bound_step 5 sample_series = sample_series"
    by (simp add: sample_series_def)
  show ?thesis using d m(1) a b c by simp
qed

text \<open>
  Claim C4 (sort invariant). For a series with unique strikes and bounds in order when
  both are supplied, the rebinned series is strictly increasing in the strike, so no
  strike occurs twice.
\<close>

theorem rebin_sort_invariant:
  assumes "distinct (map fst rows)"
    and "\<forall>lo hi. smallest_bin = Some lo \<and> largest_bin = Some hi \<longrightarrow> lo \<le> hi"
  shows "sorted_wrt (<) (map fst (rebin smallest_bin largest_bin rows))
       \<and> distinct (map fst (rebin smallest_bin largest_bin rows))"
  using rebin_strictly_sorted[OF assms(1)] by (simp add: strict_sorted_iff)


theorem rebin_sort_invariant_witness:
  "distinct (map fst sample_series)
   \<and> sorted_wrt (<) (map fst (rebin (Some 15) (Some 25) sample_series))
   \<and> distinct (map fst (rebin (Some 15) (Some 25) sample_series))"
proof -
  have d: "distinct (map fst sample_series)" by (simp add: sample_series_def)
  have o: "\<forall>lo hi. Some (15::real) = Some lo \<and> Some (25::real) = Some hi \<longrightarrow> lo \<le> hi" by simp
  from d rebin_sort_invariant [OF d o] show ?thesis by simp
qed

text \<open>
  Claim C7 (vacuous bounds). For a series with unique strikes, if no bound is supplied,
  or if the lower bound is strictly below every strike and the upper bound strictly
  above every strike, the result is the input series sorted by strike: the same rows,
  each with its probability.
\<close>

theorem rebin_vacuous_bounds:
  assumes "distinct (map fst rows)"
    and "(smallest_bin = None \<and> largest_bin = None)
       \<or> (\<exists>lo hi. smallest_bin = Some lo \<and> largest_bin = Some hi
            \<and> (\<forall>r\<in>set rows. lo < fst r \<and> fst r < hi))"
  shows "rebin smallest_bin largest_bin rows = sort_key fst rows
       \<and> set (rebin smallest_bin largest_bin rows) = set rows
       \<and> length (rebin smallest_bin largest_bin rows) = length rows"
proof -
  have "rebin smallest_bin largest_bin rows = sort_key fst rows"
    using assms(2)
  proof (elim disjE conjE exE)
    assume "smallest_bin = None" "largest_bin = None"
    then show ?thesis by (simp add: rebin_def)
  next
    fix lo hi
    assume h: "smallest_bin = Some lo" "largest_bin = Some hi"
      "\<forall>r\<in>set rows. lo < fst r \<and> fst r < hi"
    have "lower_bound_step lo rows = rows" using h(3) by (intro lower_vacuous) auto
    moreover have "upper_bound_step hi rows = rows" using h(3) by (intro upper_vacuous) auto
    ultimately show ?thesis using h(1,2) by (simp add: rebin_def)
  qed
  then show ?thesis by simp
qed


theorem rebin_vacuous_bounds_witness:
  "distinct (map fst sample_series)
   \<and> rebin (Some 5) (Some 35) sample_series = sample_series
   \<and> rebin None None sample_series = sample_series"
proof -
  have d: "distinct (map fst sample_series)" by (simp add: sample_series_def)
  have v: "(Some (5::real) = None \<and> Some (35::real) = None)
       \<or> (\<exists>lo hi. Some 5 = Some lo \<and> Some 35 = Some hi
            \<and> (\<forall>r\<in>set sample_series. lo < fst r \<and> fst r < hi))"
    by (simp add: sample_series_def)
  have n: "((None :: real option) = None \<and> (None :: real option) = None)
       \<or> (\<exists>lo hi. None = Some lo \<and> None = Some hi
            \<and> (\<forall>r\<in>set sample_series. lo < fst r \<and> fst r < hi))"
    by simp
  have s: "sort_key fst sample_series = sample_series" by (simp add: sample_series_def)
  from d s rebin_vacuous_bounds [OF d v] rebin_vacuous_bounds [OF d n] show ?thesis by simp
qed

text \<open>
  Claim C9 (inverted bounds), as amended. For a series with unique strikes, non-negative
  probabilities and positive total mass, and bounds with the lower one above the upper
  one, the result is the single row (upper bound, total mass).
\<close>

theorem rebin_inverted_bounds:
  assumes "distinct (map fst rows)"
    and "\<forall>r\<in>set rows. 0 \<le> snd r"
    and "0 < sum_list (map snd rows)"
    and "hi < lo"
  shows "rebin (Some lo) (Some hi) rows = [(hi, sum_list (map snd rows))]"
proof -
  define s1 where "s1 = lower_bound_step lo rows"
  have ne: "rows \<noteq> []" using assms(3) by auto
  have m: "sum_list (map snd s1) = sum_list (map snd rows)"
    unfolding s1_def by (rule lower_mass[OF assms(1,2)])
  have above: "\<forall>r\<in>set s1. hi < fst r"
    using lower_ge[of lo rows] assms(4) unfolding s1_def by fastforce
  have f1: "filter (\<lambda>row. hi < fst row) s1 = s1" using above by (auto simp: filter_id_conv)
  have f2: "filter (\<lambda>row. fst row \<le> hi) s1 = []" using above by (auto simp: filter_empty_conv)
  have "upper_bound_step hi s1 = [(hi, sum_list (map snd rows))]"
    using assms(3) by (simp add: upper_bound_step_def f1 f2 m)
  then show ?thesis using ne by (simp add: rebin_def s1_def)
qed


theorem rebin_inverted_bounds_witness:
  "distinct (map fst sample_series) \<and> list_all (\<lambda>r. 0 \<le> snd r) sample_series
   \<and> 0 < sum_list (map snd sample_series) \<and> (15::real) < 25
   \<and> rebin (Some 25) (Some 15) sample_series = [(15, 1)]"
proof -
  have d: "distinct (map fst sample_series)" by (simp add: sample_series_def)
  have n: "\<forall>r\<in>set sample_series. 0 \<le> snd r" by (simp add: sample_series_def)
  have t: "sum_list (map snd sample_series) = 1" by (simp add: sample_series_def)
  have p: "0 < sum_list (map snd sample_series)" by (simp add: t)
  have o: "(15::real) < 25" by simp
  from d n p rebin_inverted_bounds [OF d n p o] show ?thesis by (simp add: t list_all_iff)
qed

text \<open>
  Without the non-negativity the single row can miss mass: the lower-bound step drops
  the rows below the bound when their mass is not positive. The series 1: -0.5, 10: 1 has
  unique strikes and total mass 0.5; under the bounds 5 and 3 the result is (3, 1).
\<close>

theorem rebin_inverted_bounds_counterexample:
  "distinct (map fst signed_series)
   \<and> 0 < sum_list (map snd signed_series)
   \<and> (3 :: real) < 5
   \<and> sum_list (map snd signed_series) = 1 / 2
   \<and> rebin (Some 5) (Some 3) signed_series = [(3, 1)]
   \<and> rebin (Some 5) (Some 3) signed_series \<noteq> [(3, sum_list (map snd signed_series))]"
  by (simp add: rebin_def lower_bound_step_def upper_bound_step_def signed_series_def)

section \<open>Contract metadata\<close>

lemma set_drop_duplicates: "set (drop_duplicates xs) = set xs"
  by (induction xs rule: drop_duplicates.induct) auto

lemma image_pair_filter:
  "snd ` {p \<in> (\<lambda>r. (c r, z r)) ` A. Q (snd p) \<and> P (snd p)} = z ` {r \<in> A. Q (z r) \<and> P (z r)}"
proof (intro set_eqI iffI)
  fix x assume "x \<in> snd ` {p \<in> (\<lambda>r. (c r, z r)) ` A. Q (snd p) \<and> P (snd p)}"
  then obtain r where "r \<in> A" "Q (z r)" "P (z r)" "x = z r" by auto
  then show "x \<in> z ` {r \<in> A. Q (z r) \<and> P (z r)}" by blast
next
  fix x assume "x \<in> z ` {r \<in> A. Q (z r) \<and> P (z r)}"
  then obtain r where r: "r \<in> A" "Q (z r)" "P (z r)" "x = z r" by auto
  then have "(c r, z r) \<in> {p \<in> (\<lambda>r. (c r, z r)) ` A. Q (snd p) \<and> P (snd p)}" by simp
  moreover have "x = snd (c r, z r)" using r(4) by simp
  ultimately show "x \<in> snd ` {p \<in> (\<lambda>r. (c r, z r)) ` A. Q (snd p) \<and> P (snd p)}"
    by (rule image_eqI [rotated])
qed

lemma previous_set_gen:
  fixes hz :: "'r \<Rightarrow> 'd::linorder"
  shows "set (map snd (filter (\<lambda>p. snd p < t) (filter (\<lambda>p. snd p < h)
      (sort_key snd (drop_duplicates (map (\<lambda>row. (cp row, hz row))
         (filter (\<lambda>row. ty row = cat) tbl)))))))
   = hz ` {row \<in> set tbl. ty row = cat \<and> hz row < h \<and> hz row < t}"
proof -
  have a: "set (sort_key snd (drop_duplicates (map (\<lambda>row. (cp row, hz row))
         (filter (\<lambda>row. ty row = cat) tbl))))
       = (\<lambda>row. (cp row, hz row)) ` {row \<in> set tbl. ty row = cat}"
    by (simp only: set_sort set_drop_duplicates set_map set_filter)
  have "set (map snd (filter (\<lambda>p. snd p < t) (filter (\<lambda>p. snd p < h)
      (sort_key snd (drop_duplicates (map (\<lambda>row. (cp row, hz row))
         (filter (\<lambda>row. ty row = cat) tbl)))))))
     = snd ` {p \<in> (\<lambda>row. (cp row, hz row)) ` {row \<in> set tbl. ty row = cat}. snd p < h \<and> snd p < t}"
    unfolding set_map set_filter a by blast
  also have "\<dots> = hz ` {row \<in> {row \<in> set tbl. ty row = cat}. hz row < h \<and> hz row < t}"
    by (rule image_pair_filter)
  also have "\<dots> = hz ` {row \<in> set tbl. ty row = cat \<and> hz row < h \<and> hz row < t}"
    by simp
  finally show ?thesis .
qed

lemma previous_set:
  "set (map snd (filter (\<lambda>p. snd p < today w) (filter (\<lambda>p. snd p < h)
      (sort_key snd (drop_duplicates (map (\<lambda>row. (contract_preamble row, horizon_date row))
         (filter (\<lambda>row. type row = cat) (kalshi_data w))))))))
   = resolved_horizons w cat h"
  unfolding resolved_horizons_def previous_set_gen by simp

lemma get_contract_info_known:
  assumes f: "filter (\<lambda>row. contract_preamble row = contract) (kalshi_data w) = first # others"
  shows "get_contract_info w contract = Some
     \<lparr>info_horizon_date = horizon_date first,
      info_previous_horizon_date =
        (if resolved_horizons w (type first) (horizon_date first) = {} then None
         else Some (Max (resolved_horizons w (type first) (horizon_date first)))),
      info_latest_prediction_date = Max (set (map prediction_date (first # others)))\<rparr>"
proof -
  let ?past = "filter (\<lambda>p. snd p < today w) (filter (\<lambda>p. snd p < horizon_date first)
      (sort_key snd (drop_duplicates (map (\<lambda>row. (contract_preamble row, horizon_date row))
         (filter (\<lambda>row. type row = type first) (kalshi_data w))))))"
  have s: "set (map snd ?past) = resolved_horizons w (type first) (horizon_date first)"
    by (rule previous_set)
  have e: "(?past \<noteq> []) = (resolved_horizons w (type first) (horizon_date first) \<noteq> {})"
    unfolding s [symmetric] by (simp only: set_empty map_is_Nil_conv)
  have "get_contract_info w contract = Some
     \<lparr>info_horizon_date = horizon_date first,
      info_previous_horizon_date =
        (if ?past \<noteq> [] then Some (Max (set (map snd ?past))) else None),
      info_latest_prediction_date = Max (set (map prediction_date (first # others)))\<rparr>"
    by (simp only: get_contract_info_def f list.case Let_def)
  also have "(if ?past \<noteq> [] then Some (Max (set (map snd ?past))) else None)
     = (if resolved_horizons w (type first) (horizon_date first) = {} then None
         else Some (Max (resolved_horizons w (type first) (horizon_date first))))"
    unfolding s e by simp
  finally show ?thesis .
qed

lemma sample_world_fed_jul:
  "filter (\<lambda>row. contract_preamble row = ''FED-25JUL'') (kalshi_data sample_world)
     = [sample_row ''FED-25JUL'' (2025, 6, 20) (2025, 7, 30) (4 + 1 / 4) (7 / 10),
        sample_row ''FED-25JUL'' (2025, 6, 20) (2025, 7, 30) (4 + 1 / 2) (3 / 10)]"
  by (simp add: sample_world_def sample_table_def sample_row_def)

lemma sample_world_resolved:
  "resolved_horizons sample_world ''fed_levels'' (2025, 7, 30) = {(2025, 6, 18), (2025, 3, 19)}"
  by (simp add: resolved_horizons_def sample_world_def today_def sample_table_def sample_row_def)

text \<open>
  Claim C3 (previous horizon). For a known contract (its frame has a first row), the
  endpoint returns that row's horizon as the horizon date, and as previous horizon the
  greatest horizon date among the rows of the first row's category that is strictly
  before this horizon and strictly before the current day, or nothing when there is no
  such date. On the table with the horizons 2025-07-30, 2025-06-18 and 2025-03-19 of one
  category, read on 2025-07-01, the previous horizon of the contract of 2025-07-30 is
  2025-06-18.
\<close>

theorem previous_horizon_selection:
  "(filter (\<lambda>row. contract_preamble row = contract) (kalshi_data w) = first # others \<longrightarrow>
      (\<exists>info. get_contract_info w contract = Some info
         \<and> info_horizon_date info = horizon_date first
         \<and> info_previous_horizon_date info =
             (if resolved_horizons w (type first) (horizon_date first) = {} then None
              else Some (Max (resolved_horizons w (type first) (horizon_date first))))))
   \<and> today sample_world = (2025, 7, 1)
   \<and> get_contract_info sample_world ''FED-25JUL''
       = Some \<lparr>info_horizon_date = (2025, 7, 30),
               info_previous_horizon_date = Some (2025, 6, 18),
               info_latest_prediction_date = (2025, 6, 20)\<rparr>"
proof (intro conjI impI)
  assume f: "filter (\<lambda>row. contract_preamble row = contract) (kalshi_data w) = first # others"
  show "\<exists>info. get_contract_info w contract = Some info
         \<and> info_horizon_date info = horizon_date first
         \<and> info_previous_horizon_date info =
             (if resolved_horizons w (type first) (horizon_date first) = {} then None
              else Some (Max (resolved_horizons w (type first) (horizon_date first))))"
    unfolding get_contract_info_known [OF f] by simp
next
  show "today sample_world = (2025, 7, 1)" by (simp add: sample_world_def today_def)
next
  show "get_contract_info sample_world ''FED-25JUL''
       = Some \<lparr>info_horizon_date = (2025, 7, 30),
               info_previous_horizon_date = Some (2025, 6, 18),
               info_latest_prediction_date = (2025, 6, 20)\<rparr>"
    by (simp add: get_contract_info_def sample_world_def today_def sample_table_def
          sample_row_def)
qed

theorem previous_horizon_selection_witness:
  "resolved_horizons sample_world ''fed_levels'' (2025, 7, 30) = {(2025, 6, 18), (2025, 3, 19)}
   \<and> (\<exists>info. get_contract_info sample_world ''FED-25JUL'' = Some info
         \<and> info_horizon_date info = (2025, 7, 30)
         \<and> info_previous_horizon_date info = Some (2025, 6, 18))"
proof -
  let ?first = "sample_row ''FED-25JUL'' (2025, 6, 20) (2025, 7, 30) (4 + 1 / 4) (7 / 10)"
  have t: "type ?first = ''fed_levels''" "horizon_date ?first = (2025, 7, 30)"
    by (simp_all add: sample_row_def)
  have m: "Max {(2025, 6, 18), (2025, 3, 19)} = ((2025, 6, 18) :: date)" by simp
  from previous_horizon_selection
         [of "''FED-25JUL''" sample_world ?first
            "[sample_row ''FED-25JUL'' (2025, 6, 20) (2025, 7, 30) (4 + 1 / 2) (3 / 10)]"]
       sample_world_fed_jul
  have "\<exists>info. get_contract_info sample_world ''FED-25JUL'' = Some info
         \<and> info_horizon_date info = horizon_date ?first
         \<and> info_previous_horizon_date info =
             (if resolved_horizons sample_world (type ?first) (horizon_date ?first) = {} then None
              else Some (Max (resolved_horizons sample_world (type ?first) (horizon_date ?first))))"
    by blast
  then show ?thesis unfolding t sample_world_resolved m by (simp add: sample_world_resolved)
qed

section \<open>Horizon override\<close>

text \<open>
  Claim C5 (idempotent override). Overriding twice gives what overriding once gives; a
  row whose contract is a key of the map gets the mapped date, and any other row comes
  out as it went in.
\<close>

theorem horizon_override_idempotent:
  "apply_horizon_override (apply_horizon_override df) = apply_horizon_override df
   \<and> length (apply_horizon_override df) = length df
   \<and> (\<forall>i<length df.
        apply_horizon_override df ! i =
          (if contract_preamble (df ! i) \<in> dom HORIZON_MAP
           then (df ! i)\<lparr>horizon_date := the (HORIZON_MAP (contract_preamble (df ! i)))\<rparr>
           else df ! i))"
  by (simp add: apply_horizon_override_def)

theorem horizon_override_idempotent_witness:
  "apply_horizon_override sample_file ! 0 = (sample_file ! 0)\<lparr>horizon_date := (2025, 7, 30)\<rparr>
   \<and> apply_horizon_override sample_file ! 1 = sample_file ! 1
   \<and> apply_horizon_override (apply_horizon_override sample_file) = apply_horizon_override sample_file"
proof -
  have l: "(0::nat) < length sample_file" "(1::nat) < length sample_file"
    by (simp_all add: sample_file_def)
  have k: "contract_preamble (sample_file ! 0) \<in> dom HORIZON_MAP"
    "HORIZON_MAP (contract_preamble (sample_file ! 0)) = Some (2025, 7, 30)"
    "contract_preamble (sample_file ! 1) \<notin> dom HORIZON_MAP"
    by (simp_all add: sample_file_def sample_row_def HORIZON_MAP_def dom_def)
  from horizon_override_idempotent [of sample_file] l k show ?thesis by simp
qed

text \<open>
  Claim C10 (override frame). The override keeps the number and the order of the rows,
  and in every row the contract, the prediction date, the strike, the probability and
  the category: only the horizon date column can change.
\<close>

theorem horizon_override_frame:
  "length (apply_horizon_override df) = length df
   \<and> map contract_preamble (apply_horizon_override df) = map contract_preamble df
   \<and> map prediction_date (apply_horizon_override df) = map prediction_date df
   \<and> map strike (apply_horizon_override df) = map strike df
   \<and> map probability (apply_horizon_override df) = map probability df
   \<and> map type (apply_horizon_override df) = map type df"
  by (simp add: apply_horizon_override_def comp_def)

section \<open>The endpoints on unknown contracts and empty dates\<close>

text \<open>
  The loop of \<^verbatim>\<open>get_distribution\<close> returns exactly when \<^verbatim>\<open>pd.to_datetime\<close> reads every
  date string, and raises as soon as one is not read.
\<close>

lemma distribution_loop_ok:
  "\<forall>s\<in>set dates. \<not> isl (parse s) \<Longrightarrow>
   distribution_loop parse df lo hi dates acc =
     Inr (\<lambda>s. if s \<in> set dates
               then Some (rebin lo hi (date_subset df (projr (parse s))))
               else acc s)"
proof (induction dates arbitrary: acc)
  case Nil
  then show ?case by simp
next
  case (Cons date_str rest)
  from Cons.prems obtain d where d: "parse date_str = Inr d"
    by (cases "parse date_str") auto
  have r: "\<forall>s\<in>set rest. \<not> isl (parse s)" using Cons.prems by simp
  show ?case
    unfolding distribution_loop.simps d sum.case Cons.IH [OF r]
    using d by (auto simp: fun_eq_iff)
qed

lemma distribution_loop_raises:
  "\<exists>s\<in>set dates. isl (parse s) \<Longrightarrow>
   distribution_loop parse df lo hi dates acc = Inl DateParseError"
proof (induction dates arbitrary: acc)
  case Nil
  then show ?case by simp
next
  case (Cons date_str rest)
  show ?case
  proof (cases "parse date_str")
    case (Inl e)
    then show ?thesis by (cases e) simp
  next
    case (Inr d)
    with Cons.prems have "\<exists>s\<in>set rest. isl (parse s)" by auto
    then show ?thesis using Inr Cons.IH by simp
  qed
qed

lemma get_distribution_ok:
  assumes "\<forall>s\<in>set dates. \<not> isl (to_datetime (now w) s)"
  shows "get_distribution to_datetime w contract dates lo hi =
     Inr \<lparr>strike_labels =
            sort (drop_duplicates (map strike
              (filter (\<lambda>row. contract_preamble row = contract) (kalshi_data w)))),
          data = (\<lambda>s. if s \<in> set dates
                      then Some (rebin lo hi
                        (date_subset (filter (\<lambda>row. contract_preamble row = contract) (kalshi_data w))
                           (projr (to_datetime (now w) s))))
                      else None)\<rparr>"
  by (simp add: get_distribution_def Let_def distribution_loop_ok [OF assms])

lemma unknown_frame:
  "contract \<notin> contract_preamble ` set (kalshi_data w) \<Longrightarrow>
   filter (\<lambda>row. contract_preamble row = contract) (kalshi_data w) = []"
  by (auto simp: filter_empty_conv)

lemma rebin_empty: "rebin lo hi [] = []"
  by (simp add: rebin_def)

lemma date_subset_empty: "date_subset [] d = []"
  by (simp add: date_subset_def)

text \<open>
  Claim C6 (totality), as amended. For a contract with no row in the table, the metadata
  endpoint returns the empty dictionary and the prediction-dates endpoint the empty list;
  the distribution endpoint, when \<^verbatim>\<open>pd.to_datetime\<close> reads every requested date string,
  returns no strike label and the empty sequence under every requested date. For any
  contract, when every requested date string is read, a requested date on which the
  contract has no row gets the empty sequence.
\<close>

theorem unknown_contract_total:
  "(contract \<notin> contract_preamble ` set (kalshi_data w) \<longrightarrow>
      get_contract_info w contract = None
      \<and> get_prediction_dates w contract category = []
      \<and> ((\<forall>s\<in>set dates. \<not> isl (to_datetime (now w) s)) \<longrightarrow>
           get_distribution to_datetime w contract dates lo hi =
             Inr \<lparr>strike_labels = [],
                  data = (\<lambda>s. if s \<in> set dates then Some [] else None)\<rparr>))
   \<and> ((\<forall>s\<in>set dates. \<not> isl (to_datetime (now w) s)) \<and> date_str \<in> set dates
        \<and> date_subset (filter (\<lambda>row. contract_preamble row = contract) (kalshi_data w))
             (projr (to_datetime (now w) date_str)) = [] \<longrightarrow>
        (\<exists>out. get_distribution to_datetime w contract dates lo hi = Inr out
           \<and> data out date_str = Some []))"
proof (intro conjI impI)
  assume u: "contract \<notin> contract_preamble ` set (kalshi_data w)"
  note f = unknown_frame [OF u]
  show "get_contract_info w contract = None"
    by (simp add: get_contract_info_def f)
  show "get_prediction_dates w contract category = []"
  proof -
    have "filter (\<lambda>row. contract_preamble row = contract \<and> type row = category) (kalshi_data w) = []"
      using u by (auto simp: filter_empty_conv)
    then show ?thesis by (simp add: get_prediction_dates_def)
  qed
  assume p: "\<forall>s\<in>set dates. \<not> isl (to_datetime (now w) s)"
  show "get_distribution to_datetime w contract dates lo hi =
          Inr \<lparr>strike_labels = [], data = (\<lambda>s. if s \<in> set dates then Some [] else None)\<rparr>"
    unfolding get_distribution_ok [where to_datetime = to_datetime and w = w, OF p] f date_subset_empty rebin_empty by simp
next
  assume a: "(\<forall>s\<in>set dates. \<not> isl (to_datetime (now w) s)) \<and> date_str \<in> set dates
        \<and> date_subset (filter (\<lambda>row. contract_preamble row = contract) (kalshi_data w))
             (projr (to_datetime (now w) date_str)) = []"
  then have p: "\<forall>s\<in>set dates. \<not> isl (to_datetime (now w) s)" by simp
  show "\<exists>out. get_distribution to_datetime w contract dates lo hi = Inr out
           \<and> data out date_str = Some []"
  proof (intro exI conjI)
    show "get_distribution to_datetime w contract dates lo hi =
       Inr \<lparr>strike_labels =
              sort (drop_duplicates (map strike
                (filter (\<lambda>row. contract_preamble row = contract) (kalshi_data w)))),
            data = (\<lambda>s. if s \<in> set dates
                        then Some (rebin lo hi
                          (date_subset (filter (\<lambda>row. contract_preamble row = contract) (kalshi_data w))
                             (projr (to_datetime (now w) s))))
                        else None)\<rparr>"
      by (rule get_distribution_ok [where to_datetime = to_datetime and w = w, OF p])
    show "data \<lparr>strike_labels =
              sort (drop_duplicates (map strike
                (filter (\<lambda>row. contract_preamble row = contract) (kalshi_data w)))),
            data = (\<lambda>s. if s \<in> set dates
                        then Some (rebin lo hi
                          (date_subset (filter (\<lambda>row. contract_preamble row = contract) (kalshi_data w))
                             (projr (to_datetime (now w) s))))
                        else None)\<rparr> date_str = Some []"
      using a by (simp add: rebin_empty)
  qed
qed

theorem unknown_contract_total_witness:
  "''NOPE'' \<notin> contract_preamble ` set (kalshi_data sample_world)
   \<and> get_contract_info sample_world ''NOPE'' = None
   \<and> get_prediction_dates sample_world ''NOPE'' ''fed_levels'' = []
   \<and> get_distribution sample_to_datetime sample_world ''NOPE'' [''2025-06-20''] None None =
        Inr \<lparr>strike_labels = [],
             data = (\<lambda>s. if s \<in> set [''2025-06-20''] then Some [] else None)\<rparr>
   \<and> (\<exists>out. get_distribution sample_to_datetime sample_world ''FED-25JUL''
                [''2025-06-20'', ''2025-06-21''] None None = Inr out
           \<and> data out ''2025-06-21'' = Some [])"
proof -
  have u: "''NOPE'' \<notin> contract_preamble ` set (kalshi_data sample_world)"
    by (simp add: sample_world_def sample_table_def sample_row_def)
  have p1: "\<forall>s\<in>set [''2025-06-20'']. \<not> isl (sample_to_datetime (now sample_world) s)"
    by (simp add: sample_to_datetime_def)
  have p2: "\<forall>s\<in>set [''2025-06-20'', ''2025-06-21'']. \<not> isl (sample_to_datetime (now sample_world) s)"
    by (simp add: sample_to_datetime_def)
  have e: "date_subset (filter (\<lambda>row. contract_preamble row = ''FED-25JUL'') (kalshi_data sample_world))
             (projr (sample_to_datetime (now sample_world) ''2025-06-21'')) = []"
    by (simp add: date_subset_def sample_to_datetime_def sample_world_def sample_table_def
          sample_row_def)
  have m: "''2025-06-21'' \<in> set [''2025-06-20'', ''2025-06-21'']" by simp
  have a: "get_contract_info sample_world ''NOPE'' = None
      \<and> get_prediction_dates sample_world ''NOPE'' ''fed_levels'' = []
      \<and> get_distribution sample_to_datetime sample_world ''NOPE'' [''2025-06-20''] None None =
             Inr \<lparr>strike_labels = [],
                  data = (\<lambda>s. if s \<in> set [''2025-06-20''] then Some [] else None)\<rparr>"
    using unknown_contract_total
      [where contract = "''NOPE''" and w = sample_world and category = "''fed_levels''"
         and dates = "[''2025-06-20'']" and to_datetime = sample_to_datetime
         and lo = None and hi = None]
      u p1 by blast
  have b: "\<exists>out. get_distribution sample_to_datetime sample_world ''FED-25JUL''
                [''2025-06-20'', ''2025-06-21''] None None = Inr out
           \<and> data out ''2025-06-21'' = Some []"
    using unknown_contract_total
      [where contract = "''FED-25JUL''" and w = sample_world
         and dates = "[''2025-06-20'', ''2025-06-21'']" and to_datetime = sample_to_datetime
         and date_str = "''2025-06-21''" and lo = None and hi = None]
      p2 m e by blast
  from u a b show ?thesis by blast
qed

text \<open>
  The endpoint does not guard \<^verbatim>\<open>pd.to_datetime\<close>: on a date string that holds no date it
  raises, whatever the contract.
\<close>

theorem unknown_contract_total_counterexample:
  "''NOPE'' \<notin> contract_preamble ` set (kalshi_data sample_world)
   \<and> sample_to_datetime (now sample_world) ''garbage'' = Inl DateParseError
   \<and> get_distribution sample_to_datetime sample_world ''NOPE'' [''garbage''] None None
       = Inl DateParseError"
  by (simp add: get_distribution_def sample_to_datetime_def sample_world_def sample_table_def
        sample_row_def)

section \<open>What the endpoints read\<close>

text \<open>
  Two readings of \<^verbatim>\<open>pd.to_datetime\<close> that agree on the requested strings give the same
  loop, and the horizon date and the latest prediction date of a contract are read from
  the table alone.
\<close>

lemma distribution_loop_agree:
  "\<forall>s\<in>set dates. parse1 s = parse2 s \<Longrightarrow>
   distribution_loop parse1 df lo hi dates acc = distribution_loop parse2 df lo hi dates acc"
proof (induction dates arbitrary: acc)
  case Nil
  then show ?case by simp
next
  case (Cons date_str rest)
  have h: "parse1 date_str = parse2 date_str" using Cons.prems by simp
  have r: "\<forall>s\<in>set rest. parse1 s = parse2 s" using Cons.prems by simp
  show ?case
    unfolding distribution_loop.simps h Cons.IH [OF r] ..
qed

lemma get_contract_info_clock_free:
  assumes k: "kalshi_data w1 = kalshi_data w2"
  shows "map_option info_horizon_date (get_contract_info w1 contract)
           = map_option info_horizon_date (get_contract_info w2 contract)"
    and "map_option info_latest_prediction_date (get_contract_info w1 contract)
           = map_option info_latest_prediction_date (get_contract_info w2 contract)"
  by (simp_all add: get_contract_info_def k Let_def split: list.splits)

text \<open>
  Claim C8 (determinism), as amended. Take two worlds with the same table; their clocks
  may differ. The endpoints that list contracts (for one and the same pandas sort),
  categories and prediction dates return the same result in both. The distribution
  endpoint returns the same result in both whenever \<^verbatim>\<open>pd.to_datetime\<close> reads every
  requested date string the same way at the two clock readings. The metadata endpoint
  returns the same result in both whenever the current day is the same, and the same
  horizon date and latest prediction date in any case.
\<close>

theorem query_determinism:
  "kalshi_data w1 = kalshi_data w2 \<longrightarrow>
     get_contracts sort_values_desc w1 type_arg = get_contracts sort_values_desc w2 type_arg
     \<and> get_types w1 = get_types w2
     \<and> get_prediction_dates w1 contract category = get_prediction_dates w2 contract category
     \<and> ((\<forall>s\<in>set dates. to_datetime (now w1) s = to_datetime (now w2) s) \<longrightarrow>
          get_distribution to_datetime w1 contract dates lo hi
            = get_distribution to_datetime w2 contract dates lo hi)
     \<and> (today w1 = today w2 \<longrightarrow> get_contract_info w1 contract = get_contract_info w2 contract)
     \<and> map_option info_horizon_date (get_contract_info w1 contract)
           = map_option info_horizon_date (get_contract_info w2 contract)
     \<and> map_option info_latest_prediction_date (get_contract_info w1 contract)
           = map_option info_latest_prediction_date (get_contract_info w2 contract)"
proof (intro impI conjI)
  assume k: "kalshi_data w1 = kalshi_data w2"
  show "get_contracts sort_values_desc w1 type_arg = get_contracts sort_values_desc w2 type_arg"
    by (simp only: get_contracts_def k)
  show "get_types w1 = get_types w2"
    by (simp only: get_types_def k)
  show "get_prediction_dates w1 contract category = get_prediction_dates w2 contract category"
    by (simp only: get_prediction_dates_def k)
  show "map_option info_horizon_date (get_contract_info w1 contract)
           = map_option info_horizon_date (get_contract_info w2 contract)"
    by (rule get_contract_info_clock_free(1) [OF k])
  show "map_option info_latest_prediction_date (get_contract_info w1 contract)
           = map_option info_latest_prediction_date (get_contract_info w2 contract)"
    by (rule get_contract_info_clock_free(2) [OF k])
  assume p: "\<forall>s\<in>set dates. to_datetime (now w1) s = to_datetime (now w2) s"
  show "get_distribution to_datetime w1 contract dates lo hi
          = get_distribution to_datetime w2 contract dates lo hi"
    unfolding get_distribution_def k
      distribution_loop_agree [where ?parse1.0 = "to_datetime (now w1)"
        and ?parse2.0 = "to_datetime (now w2)", OF p] ..
next
  assume k: "kalshi_data w1 = kalshi_data w2" and t: "today w1 = today w2"
  show "get_contract_info w1 contract = get_contract_info w2 contract"
    by (simp only: get_contract_info_def k t)
qed

theorem query_determinism_witness:
  "kalshi_data sample_world = kalshi_data (sample_world\<lparr>now := ((2025, 7, 1), 61200)\<rparr>)
   \<and> now sample_world \<noteq> now (sample_world\<lparr>now := ((2025, 7, 1), 61200)\<rparr>)
   \<and> today sample_world = today (sample_world\<lparr>now := ((2025, 7, 1), 61200)\<rparr>)
   \<and> get_contracts (\<lambda>pairs. rev (sort_key snd (rev pairs))) sample_world None
       = get_contracts (\<lambda>pairs. rev (sort_key snd (rev pairs)))
           (sample_world\<lparr>now := ((2025, 7, 1), 61200)\<rparr>) None
   \<and> get_types sample_world = get_types (sample_world\<lparr>now := ((2025, 7, 1), 61200)\<rparr>)
   \<and> get_prediction_dates sample_world ''FED-25JUL'' ''fed_levels''
       = get_prediction_dates (sample_world\<lparr>now := ((2025, 7, 1), 61200)\<rparr>)
           ''FED-25JUL'' ''fed_levels''
   \<and> get_distribution sample_to_datetime sample_world ''FED-25JUL''
         [''2025-06-20'', ''00:00''] None None
       = get_distribution sample_to_datetime (sample_world\<lparr>now := ((2025, 7, 1), 61200)\<rparr>)
           ''FED-25JUL'' [''2025-06-20'', ''00:00''] None None
   \<and> get_contract_info sample_world ''FED-25JUL''
       = get_contract_info (sample_world\<lparr>now := ((2025, 7, 1), 61200)\<rparr>) ''FED-25JUL''"
proof -
  let ?w2 = "sample_world\<lparr>now := ((2025, 7, 1), 61200)\<rparr>"
  have k: "kalshi_data sample_world = kalshi_data ?w2" by simp
  have n: "now sample_world \<noteq> now ?w2" by (simp add: sample_world_def)
  have t: "today sample_world = today ?w2" by (simp add: sample_world_def today_def)
  have p: "\<forall>s\<in>set [''2025-06-20'', ''00:00''].
             sample_to_datetime (now sample_world) s = sample_to_datetime (now ?w2) s"
    by (simp add: sample_to_datetime_def sample_world_def)
  from k n t p
    query_determinism [where ?w1.0 = sample_world and ?w2.0 = ?w2
      and sort_values_desc = "\<lambda>pairs. rev (sort_key snd (rev pairs))" and type_arg = None
      and contract = "''FED-25JUL''" and category = "''fed_levels''"
      and to_datetime = sample_to_datetime and dates = "[''2025-06-20'', ''00:00'']"
      and lo = None and hi = None]
  show ?thesis by blast
qed

text \<open>
  Two of the endpoints read the wall clock. On the same table, the metadata of the same
  contract has another previous horizon on 2025-06-02 than on 2025-07-01 (line 143 asks
  for today), and the distribution requested under the time of day \<^verbatim>\<open>00:00\<close>, which
  \<^verbatim>\<open>pd.to_datetime\<close> reads as the midnight of the current day (line 84), holds the row of
  2025-06-02 on that day and no row on 2025-07-01.
\<close>

theorem query_determinism_counterexample:
  "kalshi_data sample_world = kalshi_data (sample_world\<lparr>now := ((2025, 6, 2), 34200)\<rparr>)
   \<and> get_contract_info sample_world ''FED-25JUL''
       = Some \<lparr>info_horizon_date = (2025, 7, 30),
               info_previous_horizon_date = Some (2025, 6, 18),
               info_latest_prediction_date = (2025, 6, 20)\<rparr>
   \<and> get_contract_info (sample_world\<lparr>now := ((2025, 6, 2), 34200)\<rparr>) ''FED-25JUL''
       = Some \<lparr>info_horizon_date = (2025, 7, 30),
               info_previous_horizon_date = Some (2025, 3, 19),
               info_latest_prediction_date = (2025, 6, 20)\<rparr>
   \<and> get_contract_info sample_world ''FED-25JUL''
       \<noteq> get_contract_info (sample_world\<lparr>now := ((2025, 6, 2), 34200)\<rparr>) ''FED-25JUL''
   \<and> get_distribution sample_to_datetime sample_world ''FED-25JUN'' [''00:00''] None None
       = Inr \<lparr>strike_labels = [9 / 2], data = [''00:00'' \<mapsto> []]\<rparr>
   \<and> get_distribution sample_to_datetime (sample_world\<lparr>now := ((2025, 6, 2), 34200)\<rparr>)
         ''FED-25JUN'' [''00:00''] None None
       = Inr \<lparr>strike_labels = [9 / 2], data = [''00:00'' \<mapsto> [(9 / 2, 1)]]\<rparr>
   \<and> get_distribution sample_to_datetime sample_world ''FED-25JUN'' [''00:00''] None None
       \<noteq> get_distribution sample_to_datetime (sample_world\<lparr>now := ((2025, 6, 2), 34200)\<rparr>)
           ''FED-25JUN'' [''00:00''] None None"
proof -
  let ?w2 = "sample_world\<lparr>now := ((2025, 6, 2), 34200)\<rparr>"
  have a: "get_contract_info sample_world ''FED-25JUL''
       = Some \<lparr>info_horizon_date = (2025, 7, 30),
               info_previous_horizon_date = Some (2025, 6, 18),
               info_latest_prediction_date = (2025, 6, 20)\<rparr>"
    by (simp add: get_contract_info_def sample_world_def today_def sample_table_def
          sample_row_def)
  have b: "get_contract_info ?w2 ''FED-25JUL''
       = Some \<lparr>info_horizon_date = (2025, 7, 30),
               info_previous_horizon_date = Some (2025, 3, 19),
               info_latest_prediction_date = (2025, 6, 20)\<rparr>"
    by (simp add: get_contract_info_def sample_world_def today_def sample_table_def
          sample_row_def)
  have c: "get_distribution sample_to_datetime sample_world ''FED-25JUN'' [''00:00''] None None
       = Inr \<lparr>strike_labels = [9 / 2], data = [''00:00'' \<mapsto> []]\<rparr>"
    by (simp add: get_distribution_def sample_to_datetime_def sample_world_def sample_table_def
          sample_row_def date_subset_def rebin_def)
  have d: "get_distribution sample_to_datetime ?w2 ''FED-25JUN'' [''00:00''] None None
       = Inr \<lparr>strike_labels = [9 / 2], data = [''00:00'' \<mapsto> [(9 / 2, 1)]]\<rparr>"
    by (simp add: get_distribution_def sample_to_datetime_def sample_world_def sample_table_def
          sample_row_def date_subset_def rebin_def)
  have e: "([''00:00'' \<mapsto> []] :: string \<rightharpoonup> bin list) \<noteq> [''00:00'' \<mapsto> [(9 / 2, 1)]]"
  proof
    assume "([''00:00'' \<mapsto> []] :: string \<rightharpoonup> bin list) = [''00:00'' \<mapsto> [(9 / 2, 1)]]"
    then have "([] :: bin list) = [(9 / 2, 1)]" by (rule map_upd_eqD1)
    then show False by simp
  qed
  have k: "kalshi_data sample_world = kalshi_data ?w2" by simp
  show ?thesis unfolding a b c d using e k by simp
qed

end
